theory Spec2Isabelle
  imports Main "HOL-Library.Sublist" "HOL-Library.Multiset"
begin

section \<open>Log items, levels and the per-member sequence\<close>

text \<open>
  \<^verbatim>\<open>search.go\<close> imports the packages \<^verbatim>\<open>item\<close> and \<^verbatim>\<open>parser\<close> and uses the type
  \<^verbatim>\<open>Sequence\<close> of its own package; the three are missing from the sources and are
  modelled from the specification's data model. Instants (\<^verbatim>\<open>time.Time\<close>) and
  durations (\<^verbatim>\<open>time.Duration\<close>) are integers counting nanoseconds; byte slices are
  strings.
\<close>

type_synonym Time = int

text \<open>
  Modelled from the spec: the level type of the \<^verbatim>\<open>parser\<close> package is missing. A level is
  one of TRACE, DEBUG, INFO, WARN, ERROR and CRITICAL; \<open>UNKNOWN\<close> is what a name that is
  none of them parses to.
\<close>

datatype LogLevel = UNKNOWN | TRACE | DEBUG | INFO | WARN | ERROR | CRITICAL

text \<open>
  Modelled from the spec: \<^verbatim>\<open>item.Item\<close> is missing. A LogItem is
  \<^verbatim>\<open>{time, level, content}\<close>; \<^verbatim>\<open>GetContent\<close> and \<^verbatim>\<open>GetLevel\<close> are the accessors that
  \<^verbatim>\<open>IterWithAccessTime.Next\<close> calls.
\<close>

record Item =
  item_time :: Time
  item_level :: LogLevel
  item_content :: string

text \<open>Modelled from the spec: the accessors of \<^verbatim>\<open>item.Item\<close> are missing. They read the fields.\<close>

definition GetContent :: "Item \<Rightarrow> string" where
  "GetContent x = item_content x"

definition GetLevel :: "Item \<Rightarrow> LogLevel" where
  "GetLevel x = item_level x"

text \<open>
  Lower-casing of one ASCII letter; every other byte is kept. It serves \<open>ParseLogLevel\<close>
  below.
\<close>

definition lower :: "char \<Rightarrow> char" where
  "lower c =
     (case map_of (zip ''ABCDEFGHIJKLMNOPQRSTUVWXYZ'' ''abcdefghijklmnopqrstuvwxyz'') c of
        Some d \<Rightarrow> d
      | None \<Rightarrow> c)"

text \<open>
  Modelled from the spec: \<^verbatim>\<open>parser.ParseLogLevel\<close> is missing. The levels are
  TRACE, DEBUG, INFO, WARN, ERROR and CRITICAL and level matching is case-insensitive;
  a name that is none of the six parses to \<^const>\<open>UNKNOWN\<close>.
\<close>

definition ParseLogLevel :: "string \<Rightarrow> LogLevel" where
  "ParseLogLevel s =
     (let n = map lower s in
      if n = ''trace'' then TRACE
      else if n = ''debug'' then DEBUG
      else if n = ''info'' then INFO
      else if n = ''warn'' then WARN
      else if n = ''error'' then ERROR
      else if n = ''critical'' then CRITICAL
      else UNKNOWN)"

text \<open>\<^verbatim>\<open>bytes.Contains(b, subslice)\<close>: \<open>subslice\<close> occurs in \<open>b\<close> as a contiguous run.\<close>

definition bytes_Contains :: "string \<Rightarrow> string \<Rightarrow> bool" where
  "bytes_Contains b subslice = sublist subslice b"

text \<open>
  The values of Go's \<^verbatim>\<open>error\<close> that occur: \<^verbatim>\<open>errors.New(text)\<close>, and the EOF with which
  a sequence ends.
\<close>

datatype error = errors_New string | io_EOF

text \<open>
  Modelled from the spec: the type \<^verbatim>\<open>Sequence\<close> with \<^verbatim>\<open>NewSequence\<close>, \<^verbatim>\<open>Next\<close> and
  \<^verbatim>\<open>Close\<close> is missing. A Log File Sequence is a finite, non-restartable forward-only
  stream: \<open>pending\<close> holds the items not yet delivered, \<^verbatim>\<open>next()\<close> delivers the first
  of them or reports EOF, and \<open>close_result\<close> is what closing the files returns.
\<close>

record Sequence =
  pending :: "Item list"
  close_result :: "error option"

text \<open>
  Modelled from the spec: \<^verbatim>\<open>Sequence.Next\<close> is missing. It delivers the first pending item, or
  EOF once the stream is exhausted.
\<close>

definition Sequence_Next :: "Sequence \<Rightarrow> (error + Item) \<times> Sequence" where
  "Sequence_Next sq =
     (case pending sq of
        [] \<Rightarrow> (Inl io_EOF, sq)
      | x # xs \<Rightarrow> (Inr x, sq\<lparr>pending := xs\<rparr>))"

text \<open>Modelled from the spec: \<^verbatim>\<open>Sequence.Close\<close> is missing. It returns what closing the files returns.\<close>

definition Sequence_Close :: "Sequence \<Rightarrow> error option" where
  "Sequence_Close sq = close_result sq"

section \<open>The session iterator (IterWithAccessTime)\<close>

text \<open>
  The struct of \<^verbatim>\<open>search.go\<close>. The pointer \<^verbatim>\<open>iter *Sequence\<close> is an option: \<open>None\<close> is
  \<^verbatim>\<open>nil\<close>. The sequence is referenced by this one struct only, so it is held by value.
  The mutex \<^verbatim>\<open>l\<close> makes every method atomic; each method below is one atomic function.
  Every reading of the clock (\<^verbatim>\<open>time.Now()\<close>) is the parameter \<open>now\<close>.
\<close>

record IterWithAccessTime =
  iter :: "Sequence option"
  access :: Time
  search :: string
  level :: string

definition NewIter :: "Time \<Rightarrow> Sequence \<Rightarrow> string \<Rightarrow> string \<Rightarrow> IterWithAccessTime" where
  "NewIter now sq srch lvl = \<lparr>iter = Some sq, access = now, search = srch, level = lvl\<rparr>"

text \<open>The \<^verbatim>\<open>for\<close> loop of \<^verbatim>\<open>Next\<close>: it pulls items until one passes both filters.\<close>

function Next_loop :: "string \<Rightarrow> string \<Rightarrow> Sequence \<Rightarrow> (error + Item) \<times> Sequence" where
  "Next_loop srch lvl sq =
     (case Sequence_Next sq of
        (Inl err, sq') \<Rightarrow> (Inl err, sq')
      | (Inr item, sq') \<Rightarrow>
          if \<not> bytes_Contains (GetContent item) srch then Next_loop srch lvl sq'
          else if lvl \<noteq> [] \<and> GetLevel item \<noteq> ParseLogLevel lvl then Next_loop srch lvl sq'
          else (Inr item, sq'))"
  by pat_completeness auto
termination
  by (relation "measure (\<lambda>(srch, lvl, sq). length (pending sq))")
     (auto simp: Sequence_Next_def split: list.splits)

declare Next_loop.simps [simp del]

definition Next :: "Time \<Rightarrow> IterWithAccessTime \<Rightarrow> (error + Item) \<times> IterWithAccessTime" where
  "Next now i =
     (let i1 = i\<lparr>access := now\<rparr> in
      case iter i1 of
        Some sq \<Rightarrow>
          (case Next_loop (search i1) (level i1) sq of
             (r, sq') \<Rightarrow> (r, i1\<lparr>iter := Some sq'\<rparr>))
      | None \<Rightarrow> (Inl (errors_New ''log file closed''), i1))"

definition Close :: "IterWithAccessTime \<Rightarrow> error option \<times> IterWithAccessTime" where
  "Close i =
     (case iter i of
        None \<Rightarrow> (None, i)
      | Some sq \<Rightarrow> (Sequence_Close sq, i\<lparr>iter := None\<rparr>))"

definition GetAccessTime :: "IterWithAccessTime \<Rightarrow> Time" where
  "GetAccessTime i = access i"

text \<open>A caller that calls \<^verbatim>\<open>Next\<close> once at each instant of a list, keeping every result.\<close>

fun Next_calls :: "Time list \<Rightarrow> IterWithAccessTime \<Rightarrow> (error + Item) list \<times> IterWithAccessTime" where
  "Next_calls [] i = ([], i)"
| "Next_calls (now # nows) i =
     (case Next now i of
        (r, i') \<Rightarrow> (case Next_calls nows i' of (rs, i'') \<Rightarrow> (r # rs, i'')))"

section \<open>The session store (searcher)\<close>

text \<open>
  \<^verbatim>\<open>searcher.m\<close> maps a token to a pointer. The structs the pointers refer to live in
  \<open>heap\<close>, in the order \<^verbatim>\<open>NewIter\<close> allocated them: a pointer is an index into it, and
  the store and the caller of \<^verbatim>\<open>Search\<close> share the struct they both point to.
  \<open>goroutines\<close> holds the \<^verbatim>\<open>Gc\<close> goroutines that \<^verbatim>\<open>Search\<close> started, each with its
  arguments and the place it has reached:
  \<^item> \<open>Gc_SetIter\<close>: started, about to run \<^verbatim>\<open>s.SetIter(token, iter)\<close>;
  \<^item> \<open>Gc_Check\<close>: in the loop, about to wake up and evaluate the condition of the \<^verbatim>\<open>if\<close>;
  \<^item> \<open>Gc_DelIter\<close>: the condition held, about to run \<^verbatim>\<open>s.DelIter(token)\<close>;
  \<^item> \<open>Gc_Close\<close>: about to run \<^verbatim>\<open>iter.Close()\<close>;
  \<^item> \<open>Gc_Return\<close>: past the \<^verbatim>\<open>break\<close>, returned.
  Each of these is one atomic action of the source (one lock region, or one comparison),
  so other goroutines may run between any two of them.
\<close>

datatype Gc_pc = Gc_SetIter | Gc_Check | Gc_DelIter | Gc_Close | Gc_Return

record Gc_goroutine =
  gc_token :: string
  gc_iter :: nat
  gc_pc :: Gc_pc

record searcher =
  m :: "string \<rightharpoonup> nat"
  heap :: "IterWithAccessTime list"
  goroutines :: "Gc_goroutine list"

definition NewSearcher :: searcher where
  "NewSearcher = \<lparr>m = Map.empty, heap = [], goroutines = []\<rparr>"

definition SetIter :: "string \<Rightarrow> nat \<Rightarrow> searcher \<Rightarrow> searcher" where
  "SetIter token p s = s\<lparr>m := (m s)(token \<mapsto> p)\<rparr>"

definition GetIter :: "string \<Rightarrow> searcher \<Rightarrow> nat option" where
  "GetIter token s = m s token"

definition DelIter :: "string \<Rightarrow> searcher \<Rightarrow> searcher" where
  "DelIter token s = s\<lparr>m := (m s)(token := None)\<rparr>"

text \<open>\<^verbatim>\<open>const DURATION = 60 * time.Second\<close>, in nanoseconds.\<close>

definition DURATION :: int where
  "DURATION = 60 * 1000000000"

definition Add :: "Time \<Rightarrow> int \<Rightarrow> Time" where
  "Add t d = t + d"

definition Before :: "Time \<Rightarrow> Time \<Rightarrow> bool" where
  "Before t u = (t < u)"

text \<open>
  A method called through a pointer: the struct is read from the heap and written back.
  A Go pointer always refers to a struct that exists, so a pointer is an index below the
  length of the heap (\<open>pointers_ok\<close> below, kept by every operation); \<open>deref\<close> makes the
  other case explicit, and a call through an index that names no struct does nothing.
\<close>

definition deref :: "nat \<Rightarrow> searcher \<Rightarrow> IterWithAccessTime option" where
  "deref p s = (if p < length (heap s) then Some (heap s ! p) else None)"

definition Next_at :: "Time \<Rightarrow> nat \<Rightarrow> searcher \<Rightarrow> (error + Item) option \<times> searcher" where
  "Next_at now p s =
     (case deref p s of
        None \<Rightarrow> (None, s)
      | Some i \<Rightarrow> (case Next now i of (r, i') \<Rightarrow> (Some r, s\<lparr>heap := (heap s)[p := i']\<rparr>)))"

definition Close_at :: "nat \<Rightarrow> searcher \<Rightarrow> error option \<times> searcher" where
  "Close_at p s =
     (case deref p s of
        None \<Rightarrow> (None, s)
      | Some i \<Rightarrow> (case Close i of (r, i') \<Rightarrow> (r, s\<lparr>heap := (heap s)[p := i']\<rparr>)))"

definition goto :: "nat \<Rightarrow> Gc_pc \<Rightarrow> searcher \<Rightarrow> searcher" where
  "goto k pc s = s\<lparr>goroutines := (goroutines s)[k := (goroutines s ! k)\<lparr>gc_pc := pc\<rparr>]\<rparr>"

text \<open>
  One atomic action of the \<open>k\<close>-th \<^verbatim>\<open>Gc\<close> goroutine, the clock reading \<open>now\<close>. The sleep
  before the check changes nothing and is part of the move to \<open>Gc_Check\<close>. A goroutine
  that has returned, or a number that names no goroutine, does nothing.
\<close>

definition Gc_step :: "Time \<Rightarrow> nat \<Rightarrow> searcher \<Rightarrow> searcher" where
  "Gc_step now k s =
     (if k < length (goroutines s) then
        (let g = goroutines s ! k in
         case gc_pc g of
           Gc_SetIter \<Rightarrow> goto k Gc_Check (SetIter (gc_token g) (gc_iter g) s)
         | Gc_Check \<Rightarrow>
             (case deref (gc_iter g) s of
                None \<Rightarrow> s
              | Some i \<Rightarrow>
                  if Before (Add (GetAccessTime i) DURATION) now
                  then goto k Gc_DelIter s
                  else s)
         | Gc_DelIter \<Rightarrow> goto k Gc_Close (DelIter (gc_token g) s)
         | Gc_Close \<Rightarrow> goto k Gc_Return (snd (Close_at (gc_iter g) s))
         | Gc_Return \<Rightarrow> s)
      else s)"

text \<open>
  \<^verbatim>\<open>Search\<close>. Beside the arguments of the source it takes what the source reads from
  its environment: \<open>NewSequence\<close> (what opening the log directory gives), \<open>uuid\<close> (the
  string of \<^verbatim>\<open>uuid.New()\<close>) and \<open>now\<close>. It returns the iterator (a pointer, \<open>None\<close> for
  \<^verbatim>\<open>nil\<close>), the token and the error (\<open>None\<close> for \<^verbatim>\<open>nil\<close>), and the new state.
\<close>

definition Search ::
  "(string \<Rightarrow> Time \<Rightarrow> Time \<Rightarrow> error + Sequence) \<Rightarrow> string \<Rightarrow> Time \<Rightarrow>
   string \<Rightarrow> Time \<Rightarrow> Time \<Rightarrow> string \<Rightarrow> string \<Rightarrow> string \<Rightarrow> searcher \<Rightarrow>
   (nat option \<times> string \<times> error option) \<times> searcher" where
  "Search NewSequence uuid now dir bgn en lvl text token s =
     (if token = [] then
        (case NewSequence dir bgn en of
           Inl err \<Rightarrow> ((None, uuid, Some err), s)
         | Inr i \<Rightarrow>
             (let p = length (heap s);
                  s1 = s\<lparr>heap := heap s @ [NewIter now i text lvl]\<rparr>;
                  s2 = s1\<lparr>goroutines := goroutines s1 @
                          [\<lparr>gc_token = uuid, gc_iter = p, gc_pc = Gc_SetIter\<rparr>]\<rparr>
              in ((Some p, uuid, None), s2)))
      else
        (case GetIter token s of
           None \<Rightarrow> ((None, token, Some (errors_New ''target not found'')), s)
         | Some p \<Rightarrow> ((Some p, token, None), s)))"

section \<open>Executions of the store\<close>

text \<open>
  The callers of \<^verbatim>\<open>Search\<close>, \<^verbatim>\<open>Next\<close> and \<^verbatim>\<open>Close\<close> and the \<^verbatim>\<open>Gc\<close> goroutines run
  concurrently; every action is atomic under its lock, so an execution is a sequence of
  actions in some order. An event is one action with the values it reads from its
  environment; \<open>Ev_Search\<close> carries what \<^verbatim>\<open>NewSequence\<close> returns in that call.
\<close>

datatype event =
    Ev_Search "error + Sequence" string Time string Time Time string string string
  | Ev_Next Time nat
  | Ev_Close nat
  | Ev_Gc Time nat

fun step :: "event \<Rightarrow> searcher \<Rightarrow> searcher" where
  "step (Ev_Search r uuid now dir bgn en lvl text token) s =
     snd (Search (\<lambda>d b e. r) uuid now dir bgn en lvl text token s)"
| "step (Ev_Next now p) s = snd (Next_at now p s)"
| "step (Ev_Close p) s = snd (Close_at p s)"
| "step (Ev_Gc now k) s = Gc_step now k s"

definition run :: "event list \<Rightarrow> searcher \<Rightarrow> searcher" where
  "run evs s = fold step evs s"

text \<open>The token an event generates: only a \<^verbatim>\<open>Search\<close> without a token generates one.\<close>

fun new_token :: "event \<Rightarrow> string option" where
  "new_token (Ev_Search r uuid now dir bgn en lvl text token) =
     (if token = [] then Some uuid else None)"
| "new_token e = None"

text \<open>A token is unused when no entry of the store and no watcher carries it.\<close>

definition unused :: "string \<Rightarrow> searcher \<Rightarrow> bool" where
  "unused token s = (m s token = None \<and> token \<notin> gc_token ` set (goroutines s))"


text \<open>Every pointer of the store and of the watchers refers to a struct of the heap.\<close>

definition pointers_ok :: "searcher \<Rightarrow> bool" where
  "pointers_ok s = ((\<forall>p \<in> ran (m s). p < length (heap s)) \<and>
           (\<forall>g \<in> set (goroutines s). gc_iter g < length (heap s)))"

text \<open>
  What the stream of a session iterator is compared with: an item matches the search
  text \<open>srch\<close> and the level filter \<open>lvl\<close> when its content contains \<open>srch\<close> and, if
  \<open>lvl\<close> is not empty, its level is the parsed form of \<open>lvl\<close>.
\<close>

definition matches :: "string \<Rightarrow> string \<Rightarrow> Item \<Rightarrow> bool" where
  "matches srch lvl x =
     (bytes_Contains (GetContent x) srch \<and> (lvl = [] \<or> GetLevel x = ParseLogLevel lvl))"

section \<open>Member selection and the cluster configuration query\<close>

text \<open>
  The planner and the executor of the cluster tables (\<^verbatim>\<open>executor/cluster_reader.go\<close> and
  the predicate extraction it calls) are missing from the sources; their test
  \<^verbatim>\<open>cluster_reader_test.go\<close> is present. This section models them from the specification
  (sections 3, 4.1, 4.2 and 4.3), and the lemma \<open>requests_of_the_test\<close> below checks the
  model against every request count that \<^verbatim>\<open>TestTiDBClusterConfig\<close> asserts.
\<close>

text \<open>
  Modelled from the spec: the member type is missing. A member is
  \<^verbatim>\<open>{role, address, statusAddress}\<close>; the role is the string of the \<^verbatim>\<open>type\<close> column
  (\<^verbatim>\<open>tidb\<close>, \<^verbatim>\<open>tikv\<close>, \<^verbatim>\<open>pd\<close> in the test).
\<close>

record Member =
  role :: string
  address :: string
  statusAddress :: string

text \<open>
  Modelled from the spec: the predicate type is missing. A predicate is a tree of atoms
  over the \<^verbatim>\<open>type\<close> and \<^verbatim>\<open>address\<close> columns combined with AND, OR and NOT. The atoms
  on \<^verbatim>\<open>time\<close>, \<^verbatim>\<open>level\<close> and \<^verbatim>\<open>message\<close> exist for logs only and are left out.
\<close>

datatype atom = TypeEq string | TypeIn "string list" | AddressEq string | AddressIn "string list"

datatype predicate =
    P_Atom atom
  | P_And predicate predicate
  | P_Or predicate predicate
  | P_Not predicate

text \<open>
  Modelled from the spec: the set of admissible values of a column is missing. It is
  either every value (no constraint on the column) or a finite set.
\<close>

datatype admissible = Any_value | One_of "string list"

text \<open>
  Modelled from the spec: the operations on admissible sets are missing. They are
  membership, intersection (for AND), union (for OR), and the test that a set is a
  finite set without elements.
\<close>

fun admits :: "admissible \<Rightarrow> string \<Rightarrow> bool" where
  "admits Any_value v = True"
| "admits (One_of vs) v = (v \<in> set vs)"

fun intersection :: "admissible \<Rightarrow> admissible \<Rightarrow> admissible" where
  "intersection Any_value b = b"
| "intersection (One_of xs) Any_value = One_of xs"
| "intersection (One_of xs) (One_of ys) = One_of (filter (\<lambda>x. x \<in> set ys) xs)"

fun union_of :: "admissible \<Rightarrow> admissible \<Rightarrow> admissible" where
  "union_of (One_of xs) (One_of ys) = One_of (xs @ ys)"
| "union_of a b = Any_value"

fun provably_empty :: "admissible \<Rightarrow> bool" where
  "provably_empty Any_value = False"
| "provably_empty (One_of vs) = (vs = [])"

text \<open>
  Modelled from the spec: the extraction of the admissible values is missing. For each
  column on its own, AND is intersection, OR is union, IN is a finite set, and a
  predicate that does not constrain the column admits every value. A negation is not
  reduced: it admits every value.
\<close>

fun admissible_type :: "predicate \<Rightarrow> admissible" where
  "admissible_type (P_Atom (TypeEq v)) = One_of [v]"
| "admissible_type (P_Atom (TypeIn vs)) = One_of vs"
| "admissible_type (P_Atom (AddressEq v)) = Any_value"
| "admissible_type (P_Atom (AddressIn vs)) = Any_value"
| "admissible_type (P_And p q) = intersection (admissible_type p) (admissible_type q)"
| "admissible_type (P_Or p q) = union_of (admissible_type p) (admissible_type q)"
| "admissible_type (P_Not p) = Any_value"

fun admissible_address :: "predicate \<Rightarrow> admissible" where
  "admissible_address (P_Atom (TypeEq v)) = Any_value"
| "admissible_address (P_Atom (TypeIn vs)) = Any_value"
| "admissible_address (P_Atom (AddressEq v)) = One_of [v]"
| "admissible_address (P_Atom (AddressIn vs)) = One_of vs"
| "admissible_address (P_And p q) = intersection (admissible_address p) (admissible_address q)"
| "admissible_address (P_Or p q) = union_of (admissible_address p) (admissible_address q)"
| "admissible_address (P_Not p) = Any_value"

text \<open>
  Modelled from the spec: the evaluation of the predicate on a row is missing. The
  predicate reads the \<^verbatim>\<open>type\<close> and \<^verbatim>\<open>address\<close> columns, which every row of a member
  shares with the member.
\<close>

fun eval :: "predicate \<Rightarrow> Member \<Rightarrow> bool" where
  "eval (P_Atom (TypeEq v)) mb = (role mb = v)"
| "eval (P_Atom (TypeIn vs)) mb = (role mb \<in> set vs)"
| "eval (P_Atom (AddressEq v)) mb = (address mb = v)"
| "eval (P_Atom (AddressIn vs)) mb = (address mb \<in> set vs)"
| "eval (P_And p q) mb = (eval p mb \<and> eval q mb)"
| "eval (P_Or p q) mb = (eval p mb \<or> eval q mb)"
| "eval (P_Not p) mb = (\<not> eval p mb)"

text \<open>
  Modelled from the spec: \<^verbatim>\<open>select(predicate, members)\<close> is missing. A member is selected
  iff its role is an admissible type and its address an admissible address; when either
  set is provably empty, nothing is selected. A query without a predicate selects every
  member. The spec also asks that an OR across the two columns be evaluated member by
  member before any request; the test counts 9 requests for
  \<^verbatim>\<open>type='pd' or address=...\<close>, which is what the reduction column by column gives, so
  the selection here is by column and the predicate itself is applied to the rows
  (\<open>cluster_config\<close> below).
\<close>

definition select :: "predicate option \<Rightarrow> Member list \<Rightarrow> Member list" where
  "select pred members =
     (case pred of
        None \<Rightarrow> members
      | Some p \<Rightarrow>
          if provably_empty (admissible_type p) \<or> provably_empty (admissible_address p) then []
          else filter (\<lambda>mb. admits (admissible_type p) (role mb) \<and>
                            admits (admissible_address p) (address mb)) members)"

text \<open>
  Modelled from the spec: the configuration payload is missing. A payload node is a
  scalar (given by its canonical text), a mapping from keys to nodes in the mapping's
  own order, or something else (a list, say), which is malformed.
\<close>

datatype payload = Scalar string | Mapping "(string \<times> payload) list" | Other

text \<open>Modelled from the spec: the errors of one member, which become warnings.\<close>

datatype config_error = MemberFetchFailed | MalformedPayload

text \<open>
  Modelled from the spec: the key of an entry is missing. At the top it is the entry's
  own key; below a parent it is \<^verbatim>\<open>parent.child\<close>.
\<close>

definition dotted :: "string option \<Rightarrow> string \<Rightarrow> string" where
  "dotted pfx k = (case pfx of None \<Rightarrow> k | Some parent \<Rightarrow> parent @ ''.'' @ k)"

text \<open>
  Modelled from the spec: the traversal of \<^verbatim>\<open>flatten\<close> is missing. It goes through the
  entries of a mapping depth first; a nested mapping is traversed with its key as the
  prefix (\<^verbatim>\<open>parent.child\<close>), a scalar gives one pair of dotted key and text, anything
  else fails with \<open>MalformedPayload\<close>.
\<close>

function flat :: "string option \<Rightarrow> (string \<times> payload) list \<Rightarrow> config_error + (string \<times> string) list" where
  "flat pfx [] = Inr []"
| "flat pfx ((k, v) # kvs) =
     (case (case v of
              Scalar t \<Rightarrow> Inr [(dotted pfx k, t)]
            | Mapping sub \<Rightarrow> flat (Some (dotted pfx k)) sub
            | Other \<Rightarrow> Inl MalformedPayload) of
        Inl e \<Rightarrow> Inl e
      | Inr rows \<Rightarrow> (case flat pfx kvs of Inl e \<Rightarrow> Inl e | Inr rest \<Rightarrow> Inr (rows @ rest)))"
  by pat_completeness auto
termination
  by (relation "measure (\<lambda>(pfx, kvs). size_list (size_prod (\<lambda>k. 0) size) kvs)") auto

type_synonym row = "string \<times> string \<times> string \<times> string"

text \<open>
  Modelled from the spec: \<^verbatim>\<open>flatten(memberResult)\<close> is missing. The rows of a member are
  \<^verbatim>\<open>(TYPE, ADDRESS, KEY, VALUE)\<close>, one for each pair of the traversal.
\<close>

definition flatten :: "Member \<Rightarrow> (string \<times> payload) list \<Rightarrow> config_error + row list" where
  "flatten mb cfg =
     (case flat None cfg of
        Inl e \<Rightarrow> Inl e
      | Inr kvs \<Rightarrow> Inr (map (\<lambda>(k, v). (role mb, address mb, k, v)) kvs))"

text \<open>
  What flattening is compared with: the leaf scalars of a payload, each with the path
  of mapping keys that leads to it, in the order of the payload; the path joined by
  dots; and the payloads in which every node is a scalar or a mapping.
\<close>

fun leaves :: "(string \<times> payload) list \<Rightarrow> (string list \<times> string) list" where
  "leaves [] = []"
| "leaves ((k, Scalar t) # kvs) = ([k], t) # leaves kvs"
| "leaves ((k, Mapping sub) # kvs) = map (\<lambda>(path, t). (k # path, t)) (leaves sub) @ leaves kvs"
| "leaves ((k, Other) # kvs) = leaves kvs"


fun well_formed :: "(string \<times> payload) list \<Rightarrow> bool" where
  "well_formed [] = True"
| "well_formed ((k, Scalar t) # kvs) = well_formed kvs"
| "well_formed ((k, Mapping sub) # kvs) = (well_formed sub \<and> well_formed kvs)"
| "well_formed ((k, Other) # kvs) = False"

text \<open>
  Modelled from the spec: \<^verbatim>\<open>fetch(selectedMembers, fetcher)\<close> is missing. It calls the
  fetcher once for each selected member; a failure becomes a warning keyed by the
  member's address and the other members are still fetched. The members are taken in
  the order of the list, which is the order of the output (the test lists them role by
  role); that the calls run concurrently is not modelled.
\<close>

fun fetch :: "Member list \<Rightarrow> (Member \<Rightarrow> config_error + (string \<times> payload) list) \<Rightarrow>
    (Member \<times> (string \<times> payload) list) list \<times> (string \<times> config_error) list" where
  "fetch [] fetcher = ([], [])"
| "fetch (mb # mbs) fetcher =
     (case fetch mbs fetcher of
        (results, warns) \<Rightarrow>
          (case fetcher mb of
             Inl e \<Rightarrow> (results, (address mb, e) # warns)
           | Inr cfg \<Rightarrow> ((mb, cfg) # results, warns)))"

text \<open>
  Modelled from the spec: the assembly of the rows is missing. Every fetched payload is
  flattened; a malformed payload becomes a warning of its member.
\<close>

fun flatten_all :: "(Member \<times> (string \<times> payload) list) list \<Rightarrow>
    row list \<times> (string \<times> config_error) list" where
  "flatten_all [] = ([], [])"
| "flatten_all ((mb, cfg) # rest) =
     (case flatten_all rest of
        (rs, warns) \<Rightarrow>
          (case flatten mb cfg of
             Inl e \<Rightarrow> (rs, (address mb, e) # warns)
           | Inr r \<Rightarrow> (r @ rs, warns)))"

text \<open>
  Modelled from the spec: the filter on the result rows is missing. The predicate is
  evaluated on the \<^verbatim>\<open>type\<close> and \<^verbatim>\<open>address\<close> columns of the row.
\<close>

definition row_matches :: "predicate option \<Rightarrow> row \<Rightarrow> bool" where
  "row_matches pred r =
     (case pred of
        None \<Rightarrow> True
      | Some p \<Rightarrow> (case r of (t, a, k, v) \<Rightarrow> eval p \<lparr>role = t, address = a, statusAddress = a\<rparr>))"

text \<open>
  Modelled from the spec: the outcome of a query is missing. It is the rows, the
  warnings of the members that failed, and the number of requests sent.
\<close>

record result =
  rows :: "row list"
  warnings :: "(string \<times> config_error) list"
  requests :: nat

text \<open>
  Modelled from the spec: the query on \<^verbatim>\<open>information_schema.cluster_config\<close> is missing.
  The members are selected, one request goes to each selected member, the payloads are
  flattened, and the predicate filters the rows. \<open>requests\<close> is what the test counts
  in \<^verbatim>\<open>requestCounter\<close>.
\<close>

definition cluster_config ::
  "predicate option \<Rightarrow> Member list \<Rightarrow> (Member \<Rightarrow> config_error + (string \<times> payload) list) \<Rightarrow>
   result" where
  "cluster_config pred members fetcher =
     (let selected = select pred members;
          (results, warns1) = fetch selected fetcher;
          (rs, warns2) = flatten_all results
      in \<lparr>rows = filter (row_matches pred) rs, warnings = warns1 @ warns2,
          requests = length selected\<rparr>)"

section \<open>The merge of the cluster log\<close>

text \<open>
  The log retriever of the cluster tables and the log file sequence are missing from the
  sources as well. This section models them from the specification (sections
  4.4 and 4.5); the lemma \<open>cluster_log_of_the_test\<close> below checks the model against the
  30 rows that \<^verbatim>\<open>TestTiDBClusterLog\<close> expects for the query without conditions.
\<close>

text \<open>
  Modelled from the spec: one step of the k-way merge is missing. Among the heads of
  the sequences that are not exhausted it picks the smallest by time, the earliest
  sequence winning a tie, and returns it with the sequences that remain; \<open>None\<close> when
  every sequence is exhausted. \<open>t\<close> is the time of an element.
\<close>

fun pop_min :: "('a \<Rightarrow> Time) \<Rightarrow> 'a list list \<Rightarrow> ('a \<times> 'a list list) option" where
  "pop_min t [] = None"
| "pop_min t ([] # xss) =
     (case pop_min t xss of None \<Rightarrow> None | Some (y, yss) \<Rightarrow> Some (y, [] # yss))"
| "pop_min t ((x # xs) # xss) =
     (case pop_min t xss of
        None \<Rightarrow> Some (x, xs # xss)
      | Some (y, yss) \<Rightarrow>
          if t x \<le> t y then Some (x, xs # xss) else Some (y, (x # xs) # yss))"

text \<open>Modelled from the spec: the k-way merge is missing. It repeats the step until EOF.\<close>

function kmerge :: "('a \<Rightarrow> Time) \<Rightarrow> 'a list list \<Rightarrow> 'a list" where
  "kmerge t xss = (case pop_min t xss of None \<Rightarrow> [] | Some (y, yss) \<Rightarrow> y # kmerge t yss)"
  by pat_completeness auto
termination
proof (relation "measure (\<lambda>(t, xss). length (concat xss))")
  show "wf (measure (\<lambda>(t :: 'a \<Rightarrow> Time, xss). length (concat xss)))" by simp
next
  fix t :: "'a \<Rightarrow> Time" and xss :: "'a list list" and a y yss
  assume "pop_min t xss = Some a" and "(y, yss) = a"
  then have "pop_min t xss = Some (y, yss)" by simp
  then have "length (concat yss) < length (concat xss)"
    by (induction t xss arbitrary: y yss rule: pop_min.induct)
       (auto split: option.splits if_splits)
  then show "((t, yss), (t, xss)) \<in> measure (\<lambda>(t, xss). length (concat xss))" by simp
qed

declare kmerge.simps [simp del]


text \<open>
  Modelled from the spec: the log of a member is missing. It is split across the
  current file and its rotated predecessors, each file holding its items in the
  physical order of its lines.
\<close>

record MemberLog =
  member :: Member
  files :: "Item list list"

text \<open>
  Modelled from the spec: the Log File Sequence of a member is missing. The rotation
  numbers do not tell which file is older (in the test the file \<^verbatim>\<open>.log.1\<close> holds the
  later lines), so the sequence is the look-ahead merge of the member's files.
\<close>

definition sequence_of :: "Item list list \<Rightarrow> Item list" where
  "sequence_of fs = kmerge item_time fs"

text \<open>
  Modelled from the spec: \<^verbatim>\<open>merge(sequences, timeRange, levelFilter, textFilter)\<close> is
  missing. It is the k-way merge of the members' sequences, each item with its member;
  \<open>keep\<close> stands for the filters, and an item that fails them is discarded.
\<close>

definition merge :: "(Member \<times> Item) list list \<Rightarrow> (Item \<Rightarrow> bool) \<Rightarrow> (Member \<times> Item) list" where
  "merge sequences keep = filter (\<lambda>(mb, x). keep x) (kmerge (\<lambda>(mb, x). item_time x) sequences)"

text \<open>Modelled from the spec: the query on \<^verbatim>\<open>information_schema.cluster_log\<close> is missing.\<close>

definition cluster_log :: "MemberLog list \<Rightarrow> (Item \<Rightarrow> bool) \<Rightarrow> (Member \<times> Item) list" where
  "cluster_log members keep =
     merge (map (\<lambda>ml. map (\<lambda>x. (member ml, x)) (sequence_of (files ml))) members) keep"


section \<open>Example data\<close>

definition item1 :: Item where
  "item1 = \<lparr>item_time = 1, item_level = CRITICAL, item_content = ''[test log message tidb 5, foo]''\<rparr>"

definition item2 :: Item where
  "item2 = \<lparr>item_time = 2, item_level = CRITICAL, item_content = ''[test log message pd 5, foo]''\<rparr>"

definition item3 :: Item where
  "item3 = \<lparr>item_time = 3, item_level = INFO, item_content = ''[test log message pd 10, bar]''\<rparr>"

definition item4 :: Item where
  "item4 = \<lparr>item_time = 4, item_level = CRITICAL, item_content = ''[test log message pd 14, bar]''\<rparr>"

text \<open>
  Three states of a store with one session under the token \<^verbatim>\<open>tok\<close>, last accessed at
  instant 7: its watcher about to check (\<open>st1\<close>), about to delete the entry (\<open>st2\<close>),
  and about to close the iterator after deleting the entry (\<open>st3\<close>).
\<close>

definition st1 :: searcher where
  "st1 = \<lparr>m = [''tok'' \<mapsto> 0],
          heap = [\<lparr>iter = Some \<lparr>pending = [], close_result = None\<rparr>, access = 7,
                   search = ''pd'', level = ''''\<rparr>],
          goroutines = [\<lparr>gc_token = ''tok'', gc_iter = 0, gc_pc = Gc_Check\<rparr>]\<rparr>"


definition st3 :: searcher where
  "st3 = \<lparr>m = Map.empty,
          heap = [\<lparr>iter = Some \<lparr>pending = [item2], close_result = None\<rparr>, access = 7,
                   search = ''pd'', level = ''''\<rparr>],
          goroutines = [\<lparr>gc_token = ''tok'', gc_iter = 0, gc_pc = Gc_Close\<rparr>]\<rparr>"

text \<open>
  The cluster of \<^verbatim>\<open>TestTiDBClusterConfig\<close>: three servers, each listed once for each
  of the types \<^verbatim>\<open>tidb\<close>, \<^verbatim>\<open>tikv\<close> and \<^verbatim>\<open>pd\<close>, and every member answering with the
  same nested configuration.
\<close>

definition test_payload :: "(string \<times> payload) list" where
  "test_payload =
     [(''key1'', Scalar ''value1''),
      (''key2'', Mapping [(''nest1'', Scalar ''n-value1''), (''nest2'', Scalar ''n-value2'')])]"

definition mockConfig :: "Member \<Rightarrow> config_error + (string \<times> payload) list" where
  "mockConfig mb = Inr test_payload"

definition servers :: "string \<Rightarrow> string \<Rightarrow> string \<Rightarrow> Member list" where
  "servers a0 a1 a2 =
     concat (map (\<lambda>typ. map (\<lambda>a. \<lparr>role = typ, address = a, statusAddress = a\<rparr>) [a0, a1, a2])
               [''tidb'', ''tikv'', ''pd''])"

definition config_rows :: "string \<Rightarrow> string \<Rightarrow> row list" where
  "config_rows typ a =
     [(typ, a, ''key1'', ''value1''), (typ, a, ''key2.nest1'', ''n-value1''),
      (typ, a, ''key2.nest2'', ''n-value2'')]"

definition s0 :: string where
  "s0 = ''127.0.0.1:10080''"

definition s1 :: string where
  "s1 = ''127.0.0.1:10081''"

definition s2 :: string where
  "s2 = ''127.0.0.1:10082''"

text \<open>
  The log files of \<^verbatim>\<open>TestTiDBClusterLog\<close>. An instant \<^verbatim>\<open>06:19:13.011\<close> of the test's day
  is written \<open>61913011\<close>. The members stand in the order in which the expected rows
  break ties (\<^verbatim>\<open>pd\<close>, \<^verbatim>\<open>tidb\<close>, \<^verbatim>\<open>tikv\<close>); \<open>fullLogs\<close> is the time and type column of the
  test's \<^verbatim>\<open>fullLogs\<close>.
\<close>

definition line :: "Time \<Rightarrow> string \<Rightarrow> string \<Rightarrow> Item" where
  "line t lvl msg = \<lparr>item_time = t, item_level = ParseLogLevel lvl, item_content = msg\<rparr>"

definition log_member :: "string \<Rightarrow> Member" where
  "log_member typ = \<lparr>role = typ, address = typ, statusAddress = typ\<rparr>"

definition test_logs :: "MemberLog list" where
  "test_logs =
    [\<lparr>member = log_member ''pd'', files =
        [[line 61813011 ''INFO'' ''[test log message pd 1, foo]'',
          line 61914011 ''DEBUG'' ''[test log message pd 2, foo]'',
          line 62015011 ''error'' ''[test log message pd 3, foo]'',
          line 62116011 ''trace'' ''[test log message pd 4, foo]'',
          line 62217011 ''CRITICAL'' ''[test log message pd 5, foo]''],
         [line 62313011 ''info'' ''[test log message pd 10, bar]'',
          line 62414011 ''debug'' ''[test log message pd 11, bar]'',
          line 62515011 ''ERROR'' ''[test log message pd 12, bar]'',
          line 62616011 ''TRACE'' ''[test log message pd 13, bar]'',
          line 62717011 ''critical'' ''[test log message pd 14, bar]'']]\<rparr>,
     \<lparr>member = log_member ''tidb'', files =
        [[line 61913011 ''INFO'' ''[test log message tidb 1, foo]'',
          line 61914011 ''DEBUG'' ''[test log message tidb 2, foo]'',
          line 61915011 ''error'' ''[test log message tidb 3, foo]'',
          line 61916011 ''trace'' ''[test log message tidb 4, foo]'',
          line 61917011 ''CRITICAL'' ''[test log message tidb 5, foo]''],
         [line 62513011 ''info'' ''[test log message tidb 10, bar]'',
          line 62514011 ''debug'' ''[test log message tidb 11, bar]'',
          line 62515011 ''ERROR'' ''[test log message tidb 12, bar]'',
          line 62516011 ''TRACE'' ''[test log message tidb 13, bar]'',
          line 62517011 ''critical'' ''[test log message tidb 14, bar]'']]\<rparr>,
     \<lparr>member = log_member ''tikv'', files =
        [[line 61913011 ''INFO'' ''[test log message tikv 1, foo]'',
          line 62014011 ''DEBUG'' ''[test log message tikv 2, foo]'',
          line 62115011 ''error'' ''[test log message tikv 3, foo]'',
          line 62216011 ''trace'' ''[test log message tikv 4, foo]'',
          line 62317011 ''CRITICAL'' ''[test log message tikv 5, foo]''],
         [line 62415011 ''info'' ''[test log message tikv 10, bar]'',
          line 62516011 ''debug'' ''[test log message tikv 11, bar]'',
          line 62617011 ''ERROR'' ''[test log message tikv 12, bar]'',
          line 62718011 ''TRACE'' ''[test log message tikv 13, bar]'',
          line 62819011 ''critical'' ''[test log message tikv 14, bar]'']]\<rparr>]"

definition fullLogs :: "(Time \<times> string) list" where
  "fullLogs =
    [(61813011, ''pd''), (61913011, ''tidb''), (61913011, ''tikv''), (61914011, ''pd''),
     (61914011, ''tidb''), (61915011, ''tidb''), (61916011, ''tidb''), (61917011, ''tidb''),
     (62014011, ''tikv''), (62015011, ''pd''), (62115011, ''tikv''), (62116011, ''pd''),
     (62216011, ''tikv''), (62217011, ''pd''), (62313011, ''pd''), (62317011, ''tikv''),
     (62414011, ''pd''), (62415011, ''tikv''), (62513011, ''tidb''), (62514011, ''tidb''),
     (62515011, ''pd''), (62515011, ''tidb''), (62516011, ''tidb''), (62516011, ''tikv''),
     (62517011, ''tidb''), (62616011, ''pd''), (62617011, ''tikv''), (62717011, ''pd''),
     (62718011, ''tikv''), (62819011, ''tikv'')]"

text \<open>
  Two members, each with a current file and one rotated predecessor and with
  interleaved times; the current file of \<^verbatim>\<open>pd\<close> holds its two lines out of time order.
\<close>

definition unordered_logs :: "MemberLog list" where
  "unordered_logs =
    [\<lparr>member = log_member ''pd'', files =
        [[line 3 ''INFO'' ''pd c'', line 1 ''INFO'' ''pd a''], [line 5 ''INFO'' ''pd e'']]\<rparr>,
     \<lparr>member = log_member ''tidb'', files =
        [[line 4 ''INFO'' ''tidb d''], [line 2 ''INFO'' ''tidb b'']]\<rparr>]"

section \<open>The loop of Next\<close>

lemma Next_loop_Nil: "pending sq = [] \<Longrightarrow> Next_loop srch lvl sq = (Inl io_EOF, sq)"
  by (subst Next_loop.simps) (simp add: Sequence_Next_def)

lemma Next_loop_Cons:
  "pending sq = x # xs \<Longrightarrow>
   Next_loop srch lvl sq =
     (if matches srch lvl x then (Inr x, sq\<lparr>pending := xs\<rparr>)
      else Next_loop srch lvl (sq\<lparr>pending := xs\<rparr>))"
  by (subst Next_loop.simps) (auto simp: Sequence_Next_def matches_def)

lemma Next_loop_filter:
  "Next_loop srch lvl sq =
     (case filter (matches srch lvl) (pending sq) of
        [] \<Rightarrow> (Inl io_EOF, sq\<lparr>pending := []\<rparr>)
      | x # fs \<Rightarrow> (Inr x, sq\<lparr>pending := tl (dropWhile (\<lambda>y. \<not> matches srch lvl y) (pending sq))\<rparr>))"
proof (induction "pending sq" arbitrary: sq)
  case Nil
  then show ?case using Next_loop_Nil [of sq srch lvl] by simp
next
  case (Cons x xs)
  have p: "pending sq = x # xs" using Cons.hyps(2) by simp
  show ?case
  proof (cases "matches srch lvl x")
    case True
    then show ?thesis by (simp add: Next_loop_Cons [OF p] p)
  next
    case False
    have "xs = pending (sq\<lparr>pending := xs\<rparr>)" by simp
    from Cons.hyps(1) [OF this] False show ?thesis
      by (simp add: Next_loop_Cons [OF p] p split: list.splits)
  qed
qed

lemma filter_tl_dropWhile:
  "filter P (tl (dropWhile (\<lambda>y. \<not> P y) xs)) = tl (filter P xs)"
  by (induction xs) auto

lemma Next_open:
  assumes "iter i = Some sq"
  shows "\<exists>sq'. Next now i =
           ((case filter (matches (search i) (level i)) (pending sq) of
               [] \<Rightarrow> Inl io_EOF | x # fs \<Rightarrow> Inr x),
            i\<lparr>access := now, iter := Some sq'\<rparr>) \<and>
           filter (matches (search i) (level i)) (pending sq') =
             tl (filter (matches (search i) (level i)) (pending sq))"
  using assms
  by (auto simp: Next_def Next_loop_filter filter_tl_dropWhile split: list.splits)

lemma Next_calls_open:
  assumes "iter i = Some sq"
  shows "fst (Next_calls nows i) =
           map Inr (take (length nows) (filter (matches (search i) (level i)) (pending sq))) @
           replicate (length nows - length (filter (matches (search i) (level i)) (pending sq)))
             (Inl io_EOF)"
  using assms
proof (induction nows arbitrary: i sq)
  case Nil
  then show ?case by simp
next
  case (Cons now nows)
  let ?P = "matches (search i) (level i)"
  from Next_open [OF Cons.prems, of now] obtain sq' where
    n: "Next now i = ((case filter ?P (pending sq) of [] \<Rightarrow> Inl io_EOF | x # fs \<Rightarrow> Inr x),
            i\<lparr>access := now, iter := Some sq'\<rparr>)"
    and f: "filter ?P (pending sq') = tl (filter ?P (pending sq))" by blast
  let ?i' = "i\<lparr>access := now, iter := Some sq'\<rparr>"
  have "iter ?i' = Some sq'" by simp
  from Cons.IH [OF this] f
  have ih: "fst (Next_calls nows ?i') =
      map Inr (take (length nows) (tl (filter ?P (pending sq)))) @
      replicate (length nows - length (tl (filter ?P (pending sq)))) (Inl io_EOF)"
    by simp
  show ?case
  proof (cases "filter ?P (pending sq)")
    case Nil
    with n ih show ?thesis by (simp add: split_beta replicate_app_Cons_same)
  next
    case (Cons y ys)
    with n ih show ?thesis by (simp add: split_beta)
  qed
qed

lemma lower_lower: "lower (lower c) = lower c"
  by (simp add: lower_def)

lemma ParseLogLevel_lower: "ParseLogLevel (map lower l) = ParseLogLevel l"
proof -
  have "lower \<circ> lower = lower" by (rule ext) (simp add: lower_lower)
  then show ?thesis by (simp add: ParseLogLevel_def)
qed

lemma matches_lower: "matches srch (map lower l) = matches srch l"
  by (rule ext) (simp add: matches_def ParseLogLevel_lower)

lemma matches_items:
  "\<not> matches ''pd'' ''critical'' item1" "matches ''pd'' ''critical'' item2"
  "\<not> matches ''pd'' ''critical'' item3" "matches ''pd'' ''critical'' item4"
  by (simp_all add: matches_def item1_def item2_def item3_def item4_def bytes_Contains_def
        sublist_code GetContent_def GetLevel_def ParseLogLevel_def lower_def)

text \<open>
  C6. A session iterator that is open on a sequence, with search text \<open>search i\<close> and
  level filter \<open>level i\<close>: the results of any number of successive \<^verbatim>\<open>Next\<close> calls
  are the pending items of the sequence that match both filters (content contains the
  search text; the level, when a level filter is given, equals the parsed form of the
  filter), in the order of the sequence and each once, followed by EOF for every call
  made after the matching items have run out. Items that fail a filter are dropped and
  never returned. Two level filters that differ only in the case of their letters select
  the same items.
\<close>

theorem Next_stream:
  assumes "iter i = Some sq"
  shows "fst (Next_calls nows i) =
           map Inr (take (length nows) (filter (matches (search i) (level i)) (pending sq))) @
           replicate (length nows - length (filter (matches (search i) (level i)) (pending sq)))
             (Inl io_EOF) \<and>
         (map lower l' = map lower (level i) \<longrightarrow>
            matches (search i) l' = matches (search i) (level i))"
proof -
  have "map lower l' = map lower (level i) \<Longrightarrow> matches (search i) l' = matches (search i) (level i)"
    using matches_lower [of "search i" l'] matches_lower [of "search i" "level i"] by simp
  then show ?thesis using Next_calls_open [OF assms, of nows] by simp
qed

theorem Next_stream_witness:
  "fst (Next_calls [10, 20, 30, 40]
          (NewIter 0 \<lparr>pending = [item1, item2, item3, item4], close_result = None\<rparr>
             ''pd'' ''critical'')) =
     [Inr item2, Inr item4, Inl io_EOF, Inl io_EOF] \<and>
   matches ''pd'' ''CRITICAL'' = matches ''pd'' ''critical''"
proof -
  have l: "map lower ''CRITICAL'' = map lower ''critical''" by (simp add: lower_def)
  show ?thesis
    using Next_stream [of "NewIter 0 \<lparr>pending = [item1, item2, item3, item4], close_result = None\<rparr>
             ''pd'' ''critical''" "\<lparr>pending = [item1, item2, item3, item4], close_result = None\<rparr>"
             "[10, 20, 30, 40]" "''CRITICAL''"] l
    by (simp add: NewIter_def matches_items numeral_eq_Suc)
qed

section \<open>Next on a closed iterator\<close>

lemma Next_closed:
  "iter i = None \<Longrightarrow> Next now i = (Inl (errors_New ''log file closed''), i\<lparr>access := now\<rparr>)"
  by (simp add: Next_def)

lemma iter_Close: "iter (snd (Close i)) = None"
  by (simp add: Close_def split: option.splits)

lemma Next_calls_closed:
  "iter i = None \<Longrightarrow>
   Next_calls nows i =
     (replicate (length nows) (Inl (errors_New ''log file closed'')),
      i\<lparr>access := last (access i # nows)\<rparr>)"
proof (induction nows arbitrary: i)
  case Nil
  then show ?case by simp
next
  case (Cons now nows)
  have "iter (i\<lparr>access := now\<rparr>) = None" using Cons.prems by simp
  from Cons.IH [OF this] Cons.prems show ?case by (simp add: Next_closed)
qed

section \<open>Frame lemmas for the store\<close>

lemma goroutines_goto:
  "goroutines (goto k pc s) = (goroutines s)[k := (goroutines s ! k)\<lparr>gc_pc := pc\<rparr>]"
  by (simp add: goto_def)

lemma m_goto: "m (goto k pc s) = m s"
  by (simp add: goto_def)

lemma heap_goto: "heap (goto k pc s) = heap s"
  by (simp add: goto_def)



lemma tokens_goto: "gc_token ` set (goroutines (goto k pc s)) = gc_token ` set (goroutines s)"
proof (cases "k < length (goroutines s)")
  case True
  have "map gc_token ((goroutines s)[k := (goroutines s ! k)\<lparr>gc_pc := pc\<rparr>]) =
        map gc_token (goroutines s)"
    using True by (intro nth_equalityI) (auto simp: nth_list_update)
  then have "set (map gc_token (goroutines (goto k pc s))) = set (map gc_token (goroutines s))"
    by (simp add: goroutines_goto)
  then show ?thesis by simp
next
  case False
  then show ?thesis by (simp add: goroutines_goto list_update_beyond)
qed

lemma iters_goto: "gc_iter ` set (goroutines (goto k pc s)) = gc_iter ` set (goroutines s)"
proof (cases "k < length (goroutines s)")
  case True
  have "map gc_iter ((goroutines s)[k := (goroutines s ! k)\<lparr>gc_pc := pc\<rparr>]) =
        map gc_iter (goroutines s)"
    using True by (intro nth_equalityI) (auto simp: nth_list_update)
  then have "set (map gc_iter (goroutines (goto k pc s))) = set (map gc_iter (goroutines s))"
    by (simp add: goroutines_goto)
  then show ?thesis by simp
next
  case False
  then show ?thesis by (simp add: goroutines_goto list_update_beyond)
qed



lemma goroutines_Close_at: "goroutines (snd (Close_at p s)) = goroutines s"
  by (simp add: Close_at_def split: option.splits prod.splits)

lemma goroutines_Next_at: "goroutines (snd (Next_at now p s)) = goroutines s"
  by (simp add: Next_at_def split: option.splits prod.splits)

lemma length_heap_Close_at: "length (heap (snd (Close_at p s))) = length (heap s)"
  by (simp add: Close_at_def split: option.splits prod.splits)

lemma length_heap_Next_at: "length (heap (snd (Next_at now p s))) = length (heap s)"
  by (simp add: Next_at_def split: option.splits prod.splits)

lemma m_Close_at: "m (snd (Close_at p s)) = m s"
  by (simp add: Close_at_def split: option.splits prod.splits)

lemma m_Next_at: "m (snd (Next_at now p s)) = m s"
  by (simp add: Next_at_def split: option.splits prod.splits)












section \<open>Pointers stay valid\<close>

lemma pointers_ok_goto: "pointers_ok s \<Longrightarrow> pointers_ok (goto k pc s)"
proof -
  assume w: "pointers_ok s"
  have "\<forall>g \<in> set (goroutines (goto k pc s)). gc_iter g \<in> gc_iter ` set (goroutines s)"
    using iters_goto [of k pc s] by blast
  with w show ?thesis by (auto simp: pointers_ok_def m_goto heap_goto)
qed

lemma pointers_ok_SetIter: "pointers_ok s \<Longrightarrow> p < length (heap s) \<Longrightarrow> pointers_ok (SetIter t p s)"
  by (auto simp: pointers_ok_def SetIter_def ran_def)

lemma pointers_ok_DelIter: "pointers_ok s \<Longrightarrow> pointers_ok (DelIter t s)"
  by (auto simp: pointers_ok_def DelIter_def ran_def split: if_splits)

lemma pointers_ok_Close_at: "pointers_ok s \<Longrightarrow> pointers_ok (snd (Close_at p s))"
  by (simp add: pointers_ok_def m_Close_at length_heap_Close_at goroutines_Close_at)

lemma pointers_ok_Next_at: "pointers_ok s \<Longrightarrow> pointers_ok (snd (Next_at now p s))"
  by (simp add: pointers_ok_def m_Next_at length_heap_Next_at goroutines_Next_at)

lemma pointers_ok_Gc_step: "pointers_ok s \<Longrightarrow> pointers_ok (Gc_step now k s)"
proof -
  assume w: "pointers_ok s"
  show ?thesis
  proof (cases "k < length (goroutines s)")
    case False
    then show ?thesis using w by (simp add: Gc_step_def)
  next
    case True
    then have "gc_iter (goroutines s ! k) < length (heap s)" using w by (simp add: pointers_ok_def)
    with w True show ?thesis
      by (simp add: Gc_step_def Let_def pointers_ok_goto pointers_ok_SetIter pointers_ok_DelIter pointers_ok_Close_at
            split: Gc_pc.splits option.splits)
  qed
qed

lemma pointers_ok_Search: "pointers_ok s \<Longrightarrow> pointers_ok (snd (Search NewSequence uuid now dir bgn en lvl text token s))"
  by (auto simp: Search_def Let_def pointers_ok_def GetIter_def split: sum.splits option.splits)

lemma pointers_ok_step: "pointers_ok s \<Longrightarrow> pointers_ok (step e s)"
  by (cases e) (simp_all add: pointers_ok_Search pointers_ok_Next_at pointers_ok_Close_at pointers_ok_Gc_step)

lemma pointers_ok_run: "pointers_ok s \<Longrightarrow> pointers_ok (run evs s)"
  unfolding run_def by (induction evs arbitrary: s) (simp_all add: pointers_ok_step)

lemma pointers_ok_NewSearcher: "pointers_ok NewSearcher"
  by (simp add: pointers_ok_def NewSearcher_def)

lemma pointers_ok_run_NewSearcher: "pointers_ok (run evs NewSearcher)"
  by (rule pointers_ok_run) (rule pointers_ok_NewSearcher)

section \<open>Search with a token\<close>

text \<open>
  C3. \<^verbatim>\<open>Search\<close> called with a non-empty token that has no entry in the store (never
  registered, or removed again) returns the error \<^verbatim>\<open>target not found\<close>, no iterator
  and the token it was given, and leaves the store, the iterators and the watchers as
  they were.
\<close>

theorem Search_unknown_token:
  assumes "token \<noteq> []" and "m s token = None"
  shows "Search NewSequence uuid now dir bgn en lvl text token s =
           ((None, token, Some (errors_New ''target not found'')), s)"
  using assms by (simp add: Search_def GetIter_def)

theorem Search_unknown_token_witness:
  "Search (\<lambda>d b e. Inl io_EOF) ''u1'' 5 ''/log'' 0 9 ''info'' ''x'' ''abc'' NewSearcher =
     ((None, ''abc'', Some (errors_New ''target not found'')), NewSearcher)"
  using Search_unknown_token [of "''abc''" NewSearcher]
  by (simp add: NewSearcher_def)

text \<open>
  C1, as amended. \<^verbatim>\<open>Search\<close> called with a non-empty token that has an entry in the
  store returns the stored iterator (the same pointer), the token and no error, whatever
  the directory, the time range, the level and the text are, and leaves the whole state
  as it was: the store, the iterator and its access time. \<^verbatim>\<open>Search\<close> itself does not
  touch the access time; it is the next \<^verbatim>\<open>Next\<close> call on the returned iterator that
  sets it to the time of that call.
\<close>

theorem Search_known_token:
  assumes "token \<noteq> []" and "m s token = Some p"
  shows "Search NewSequence uuid now dir bgn en lvl text token s = ((Some p, token, None), s) \<and>
         (p < length (heap s) \<longrightarrow>
            access (heap (snd (Next_at now' p s)) ! p) = now')"
  using assms
  by (auto simp: Search_def GetIter_def Next_at_def deref_def Next_def Let_def
      split: option.splits prod.splits)

theorem Search_known_token_witness:
  "Search (\<lambda>d b e. Inl io_EOF) ''u1'' 100 ''/log'' 1 2 ''info'' ''x'' ''tok'' st1 =
     ((Some 0, ''tok'', None), st1) \<and>
   access (heap (snd (Next_at 200 0 st1)) ! 0) = 200"
  using Search_known_token [of "''tok''" st1 0 "\<lambda>d b e. Inl io_EOF" "''u1''" 100 "''/log''" 1 2
      "''info''" "''x''" 200]
  by (simp add: st1_def)

text \<open>
  The claim as stated fails: the session of \<open>st1\<close> was last accessed at instant 7, and
  after a \<^verbatim>\<open>Search\<close> with its token at instant 100 its access time is not 100.
\<close>

theorem Search_refresh_counterexample:
  "access (heap (snd (Search (\<lambda>d b e. Inl io_EOF) ''u1'' 100 ''/log'' 1 2 ''info'' ''x''
      ''tok'' st1)) ! 0) \<noteq> 100"
  by (simp add: Search_def GetIter_def st1_def)

section \<open>Search without a token when the sequence cannot be built\<close>

lemma unused_Gc_step: "unused token s \<Longrightarrow> unused token (Gc_step now k s)"
proof -
  assume u: "unused token s"
  show ?thesis
  proof (cases "k < length (goroutines s)")
    case False
    then show ?thesis using u by (simp add: Gc_step_def)
  next
    case True
    then have "gc_token (goroutines s ! k) \<noteq> token" using u by (auto simp: unused_def)
    with u True show ?thesis
      by (auto simp: Gc_step_def unused_def Let_def tokens_goto m_goto SetIter_def DelIter_def
            Close_at_def deref_def
          split: Gc_pc.splits option.splits prod.splits)
  qed
qed

lemma unused_step:
  "unused token s \<Longrightarrow> new_token e \<noteq> Some token \<Longrightarrow> unused token (step e s)"
proof (cases e)
  case (Ev_Search r uuid now dir bgn en lvl tx tok)
  assume "unused token s" "new_token e \<noteq> Some token"
  then show ?thesis using Ev_Search
    by (auto simp: Search_def unused_def Let_def GetIter_def
        split: sum.splits option.splits if_splits)
next
  case (Ev_Next now p)
  assume "unused token s"
  then show ?thesis using Ev_Next
    by (auto simp: Next_at_def unused_def split: option.splits prod.splits)
next
  case (Ev_Close p)
  assume "unused token s"
  then show ?thesis using Ev_Close
    by (auto simp: Close_at_def unused_def split: option.splits prod.splits)
next
  case (Ev_Gc now k)
  assume "unused token s"
  then show ?thesis using Ev_Gc by (simp add: unused_Gc_step)
qed

lemma unused_run:
  "unused token s \<Longrightarrow> Some token \<notin> new_token ` set evs \<Longrightarrow> unused token (run evs s)"
  unfolding run_def
  by (induction evs arbitrary: s) (auto simp: unused_step)

text \<open>
  C10. \<^verbatim>\<open>Search\<close> is called without a token and \<^verbatim>\<open>NewSequence\<close> fails with \<open>err\<close>. The
  token generated for the call is \<open>uuid\<close>, the string of a new UUID: it is not empty and,
  being new, no entry and no watcher carries it. Then \<^verbatim>\<open>Search\<close> returns \<open>err\<close>, that
  token and no iterator, and the state is unchanged: no session is registered, no
  iterator is allocated and no watcher is started. Whatever happens afterwards (calls of
  \<^verbatim>\<open>Next\<close> and \<^verbatim>\<open>Close\<close>, actions of the watchers, other searches, none of them
  generating the same UUID again), a \<^verbatim>\<open>Search\<close> that presents the returned token fails
  with \<^verbatim>\<open>target not found\<close>.
\<close>

theorem Search_failed_open:
  assumes "NewSequence dir bgn en = Inl err" and "uuid \<noteq> []" and "unused uuid s"
    and "Some uuid \<notin> new_token ` set evs"
  shows "Search NewSequence uuid now dir bgn en lvl text [] s = ((None, uuid, Some err), s) \<and>
         Search NewSequence' uuid' now' dir' bgn' en' lvl' text' uuid (run evs s) =
           ((None, uuid, Some (errors_New ''target not found'')), run evs s)"
proof -
  have "unused uuid (run evs s)" using assms(3,4) by (rule unused_run)
  then have "m (run evs s) uuid = None" by (simp add: unused_def)
  with assms(1,2) show ?thesis by (simp add: Search_def GetIter_def)
qed

theorem Search_failed_open_witness:
  "Search (\<lambda>d b e. Inl (errors_New ''open /log: no such file or directory'')) ''u1'' 100 ''/log''
       1 2 ''info'' ''x'' [] st1 =
     ((None, ''u1'', Some (errors_New ''open /log: no such file or directory'')), st1) \<and>
   Search (\<lambda>d b e. Inl io_EOF) ''u2'' 300 ''/log'' 1 2 ''info'' ''x'' ''u1''
       (run [Ev_Next 150 0, Ev_Gc 200 0] st1) =
     ((None, ''u1'', Some (errors_New ''target not found'')), run [Ev_Next 150 0, Ev_Gc 200 0] st1)"
proof -
  have u: "unused ''u1'' st1" by (simp add: unused_def st1_def)
  have n: "Some ''u1'' \<notin> new_token ` set [Ev_Next 150 0, Ev_Gc 200 0]" by simp
  show ?thesis
    using Search_failed_open [of "\<lambda>d b e. Inl (errors_New ''open /log: no such file or directory'')"
        "''/log''" 1 2 "errors_New ''open /log: no such file or directory''" "''u1''" st1
        "[Ev_Next 150 0, Ev_Gc 200 0]" 100 "''info''" "''x''" "\<lambda>d b e. Inl io_EOF" "''u2''" 300
        "''/log''" 1 2 "''info''" "''x''"] u n
    by simp
qed

section \<open>The idle watch\<close>






lemma Gc_close_step:
  assumes "k < length (goroutines s)" and "gc_pc (goroutines s ! k) = Gc_Close"
    and "deref (gc_iter (goroutines s ! k)) s = Some i"
  shows "deref (gc_iter (goroutines s ! k)) (Gc_step now k s) = Some (snd (Close i))"
  using assms
  by (auto simp: Gc_step_def Let_def heap_goto Close_at_def deref_def split: prod.splits if_splits)





section \<open>Next after Close\<close>

text \<open>
  C5, as amended. An iterator becomes closed through \<^verbatim>\<open>IterWithAccessTime.Close\<close>,
  called by the holder of the iterator or by its watcher (whose closing action leaves
  exactly the struct that \<^verbatim>\<open>Close\<close> leaves). On a closed iterator every \<^verbatim>\<open>Next\<close> call
  returns the error \<^verbatim>\<open>log file closed\<close> and no item, and the iterator stays closed with
  its search text and level; what the calls do change is the access time, which each
  call sets to the instant of the call.
\<close>

theorem Next_after_Close:
  "Next_calls nows (snd (Close i)) =
     (replicate (length nows) (Inl (errors_New ''log file closed'')),
      (snd (Close i))\<lparr>access := last (access i # nows)\<rparr>) \<and>
   (k < length (goroutines s) \<and> gc_pc (goroutines s ! k) = Gc_Close \<and>
    deref (gc_iter (goroutines s ! k)) s = Some i \<longrightarrow>
      deref (gc_iter (goroutines s ! k)) (Gc_step now k s) = Some (snd (Close i)))"
proof -
  have "access (snd (Close i)) = access i" by (simp add: Close_def split: option.splits)
  then show ?thesis
    using Next_calls_closed [OF iter_Close, of nows i] Gc_close_step [of k s i now] by simp
qed

theorem Next_after_Close_witness:
  "Next_calls [100, 200] (snd (Close (heap st3 ! 0))) =
     ([Inl (errors_New ''log file closed''), Inl (errors_New ''log file closed'')],
      \<lparr>iter = None, access = 200, search = ''pd'', level = ''''\<rparr>) \<and>
   deref 0 (Gc_step 61000000000 0 st3) =
     Some \<lparr>iter = None, access = 7, search = ''pd'', level = ''''\<rparr>"
proof -
  have c: "0 < length (goroutines st3)" "gc_pc (goroutines st3 ! 0) = Gc_Close"
    "gc_iter (goroutines st3 ! 0) = 0" "deref 0 st3 = Some (heap st3 ! 0)"
    by (simp_all add: st3_def deref_def)
  have s: "snd (Close (heap st3 ! 0)) = \<lparr>iter = None, access = 7, search = ''pd'', level = ''''\<rparr>"
    by (simp add: st3_def Close_def)
  have a: "access (heap st3 ! 0) = 7" by (simp add: st3_def)
  show ?thesis
    using Next_after_Close [of "[100, 200]" "heap st3 ! 0" 0 st3 61000000000] c
    by (simp add: s a)
qed

text \<open>
  The claim as stated fails: a \<^verbatim>\<open>Next\<close> call at instant 100 on the closed iterator of
  \<open>st3\<close> changes the iterator (its access time was 7).
\<close>

theorem Next_after_Close_counterexample:
  "snd (Next 100 (snd (Close (heap st3 ! 0)))) \<noteq> snd (Close (heap st3 ! 0))"
  by (simp add: st3_def Close_def Next_def)

section \<open>Flattening a configuration payload\<close>




lemma flat_error: "flat pfx kvs = Inl e \<Longrightarrow> e = MalformedPayload"
  by (induction kvs arbitrary: pfx rule: leaves.induct) (auto split: sum.splits)

lemma flat_malformed: "\<not> well_formed kvs \<Longrightarrow> flat pfx kvs = Inl MalformedPayload"
  by (induction kvs arbitrary: pfx rule: leaves.induct) (auto split: sum.splits dest: flat_error)

lemma flatten_test_payload: "flatten mb test_payload = Inr (config_rows (role mb) (address mb))"
  by (simp add: flatten_def test_payload_def dotted_def config_rows_def)



section \<open>Member selection\<close>

lemma admits_intersection: "admits (intersection a b) v = (admits a v \<and> admits b v)"
  by (induction a b rule: intersection.induct) auto

lemma admits_union_of: "admits a v \<or> admits b v \<Longrightarrow> admits (union_of a b) v"
  by (induction a b rule: union_of.induct) auto

lemma provably_empty_admits: "provably_empty a \<Longrightarrow> \<not> admits a v"
  by (cases a) auto

text \<open>The selection never drops a member that the predicate accepts.\<close>

lemma select_sound:
  "eval p mb \<Longrightarrow> admits (admissible_type p) (role mb) \<and> admits (admissible_address p) (address mb)"
proof (induction p)
  case (P_Atom x)
  then show ?case by (cases x) auto
next
  case (P_And p q)
  then show ?case by (simp add: admits_intersection)
next
  case (P_Or p q)
  then show ?case by (auto intro: admits_union_of)
next
  case (P_Not p)
  then show ?case by simp
qed

lemma select_keeps_matching:
  "filter (eval p) (select (Some p) members) = filter (eval p) members"
proof (cases "provably_empty (admissible_type p) \<or> provably_empty (admissible_address p)")
  case True
  then have "\<And>mb. \<not> eval p mb"
    using select_sound provably_empty_admits by blast
  then have "filter (eval p) members = []" by simp
  with True show ?thesis by (simp add: select_def)
next
  case False
  then show ?thesis
    using select_sound [of p]
    by (auto simp: select_def intro!: filter_cong)
qed

lemma requests_select: "requests (cluster_config pred members fetcher) = length (select pred members)"
  by (simp add: cluster_config_def Let_def split_beta)

text \<open>
  The request counts of \<^verbatim>\<open>TestTiDBClusterConfig\<close>, case by case in the order of the test
  (the case \<^verbatim>\<open>'tidb'=type\<close> is the case \<^verbatim>\<open>type='tidb'\<close>).
\<close>

lemma requests_of_the_test:
  "length (select None (servers s0 s1 s2)) = 9"
  "length (select (Some (P_Or (P_Atom (TypeEq ''pd'')) (P_Atom (TypeEq ''tikv''))))
     (servers s0 s1 s2)) = 6"
  "length (select (Some (P_Or (P_Atom (TypeEq ''pd'')) (P_Atom (AddressEq s0))))
     (servers s0 s1 s2)) = 9"
  "length (select (Some (P_And (P_Atom (TypeEq ''pd'')) (P_Atom (TypeEq ''tikv''))))
     (servers s0 s1 s2)) = 0"
  "length (select (Some (P_Atom (TypeEq ''tikv''))) (servers s0 s1 s2)) = 3"
  "length (select (Some (P_Atom (TypeEq ''pd''))) (servers s0 s1 s2)) = 3"
  "length (select (Some (P_Atom (TypeEq ''tidb''))) (servers s0 s1 s2)) = 3"
  "length (select (Some (P_Atom (TypeIn [''tidb'', ''tikv'']))) (servers s0 s1 s2)) = 6"
  "length (select (Some (P_Atom (TypeIn [''tidb'', ''tikv'', ''pd'']))) (servers s0 s1 s2)) = 9"
  "length (select (Some (P_Atom (AddressEq s0))) (servers s0 s1 s2)) = 3"
  "length (select (Some (P_And (P_Atom (TypeEq ''tidb'')) (P_Atom (AddressEq s0))))
     (servers s0 s1 s2)) = 1"
  "length (select (Some (P_And (P_Atom (TypeIn [''tidb'', ''tikv''])) (P_Atom (AddressEq s0))))
     (servers s0 s1 s2)) = 2"
  "length (select (Some (P_And (P_Atom (TypeIn [''tidb'', ''tikv'']))
     (P_Atom (AddressIn [s0, s0])))) (servers s0 s1 s2)) = 2"
  "length (select (Some (P_And (P_Atom (TypeIn [''tidb'', ''tikv'']))
     (P_Atom (AddressIn [s0, s1])))) (servers s0 s1 s2)) = 4"
  "length (select (Some (P_And (P_And (P_Atom (TypeIn [''tidb'', ''tikv'']))
     (P_Atom (TypeEq ''pd''))) (P_Atom (AddressIn [s0, s1])))) (servers s0 s1 s2)) = 0"
  "length (select (Some (P_And (P_And (P_Atom (TypeIn [''tidb'', ''tikv'']))
     (P_Atom (AddressIn [s0, s1]))) (P_Atom (AddressEq s2)))) (servers s0 s1 s2)) = 0"
  "length (select (Some (P_And (P_And (P_Atom (TypeIn [''tidb'', ''tikv'']))
     (P_Atom (AddressIn [s0, s1]))) (P_Atom (AddressEq s0)))) (servers s0 s1 s2)) = 2"
  by (simp_all add: select_def servers_def s0_def s1_def s2_def)

text \<open>
  C7. When the admissible set of the \<^verbatim>\<open>type\<close> column that a predicate entails is empty
  (for a conjunction it is the intersection of the sets of the conjuncts, as for
  \<^verbatim>\<open>type='pd' AND type='tikv'\<close>), the query sends no request to any member, whatever the
  members and the fetcher are, and returns no row and no warning.
\<close>

theorem empty_type_set_no_calls:
  assumes "provably_empty (admissible_type p)"
  shows "cluster_config (Some p) members fetcher = \<lparr>rows = [], warnings = [], requests = 0\<rparr>"
  using assms by (simp add: cluster_config_def select_def)

theorem empty_type_set_no_calls_witness:
  "cluster_config (Some (P_And (P_Atom (TypeEq ''pd'')) (P_Atom (TypeEq ''tikv''))))
     (servers s0 s1 s2) mockConfig = \<lparr>rows = [], warnings = [], requests = 0\<rparr> \<and>
   cluster_config
     (Some (P_And (P_And (P_Atom (TypeIn [''tidb'', ''tikv''])) (P_Atom (TypeEq ''pd'')))
                  (P_Atom (AddressIn [s0, s1]))))
     (servers s0 s1 s2) mockConfig = \<lparr>rows = [], warnings = [], requests = 0\<rparr>"
proof -
  have "provably_empty (admissible_type (P_And (P_Atom (TypeEq ''pd'')) (P_Atom (TypeEq ''tikv''))))"
    by simp
  moreover have "provably_empty (admissible_type
     (P_And (P_And (P_Atom (TypeIn [''tidb'', ''tikv''])) (P_Atom (TypeEq ''pd'')))
                  (P_Atom (AddressIn [s0, s1]))))"
    by simp
  ultimately show ?thesis
    using empty_type_set_no_calls [of "P_And (P_Atom (TypeEq ''pd'')) (P_Atom (TypeEq ''tikv''))"
        "servers s0 s1 s2" mockConfig]
      empty_type_set_no_calls [of "P_And (P_And (P_Atom (TypeIn [''tidb'', ''tikv'']))
          (P_Atom (TypeEq ''pd''))) (P_Atom (AddressIn [s0, s1]))" "servers s0 s1 s2" mockConfig]
    by simp
qed

text \<open>
  C2, as amended. On the cluster of the test (three servers with different addresses,
  every role on every server, every member answering with the test's configuration)
  the query with the predicate \<^verbatim>\<open>type='pd' OR address=<server 0>\<close> sends 9 requests, one
  to every member, and returns 15 rows: the three rows of each of the five members that
  satisfy the predicate, in the order of the test, and no warning.
\<close>

theorem or_query:
  assumes "a0 \<noteq> a1" and "a0 \<noteq> a2"
  shows "cluster_config (Some (P_Or (P_Atom (TypeEq ''pd'')) (P_Atom (AddressEq a0))))
           (servers a0 a1 a2) mockConfig =
         \<lparr>rows = config_rows ''tidb'' a0 @ config_rows ''tikv'' a0 @ config_rows ''pd'' a0 @
                  config_rows ''pd'' a1 @ config_rows ''pd'' a2,
          warnings = [], requests = 9\<rparr>"
  using assms
  by (simp add: cluster_config_def select_def servers_def mockConfig_def flatten_test_payload
      row_matches_def config_rows_def)

theorem or_query_witness:
  "cluster_config (Some (P_Or (P_Atom (TypeEq ''pd'')) (P_Atom (AddressEq s0))))
           (servers s0 s1 s2) mockConfig =
         \<lparr>rows = config_rows ''tidb'' s0 @ config_rows ''tikv'' s0 @ config_rows ''pd'' s0 @
                  config_rows ''pd'' s1 @ config_rows ''pd'' s2,
          warnings = [], requests = 9\<rparr>"
proof -
  have "s0 \<noteq> s1" "s0 \<noteq> s2" by (simp_all add: s0_def s1_def s2_def)
  then show ?thesis by (rule or_query)
qed

text \<open>The claim as stated fails: on that cluster the query does not send 3 requests and return 5 rows.\<close>

theorem or_query_counterexample:
  "\<not> (requests (cluster_config (Some (P_Or (P_Atom (TypeEq ''pd'')) (P_Atom (AddressEq s0))))
           (servers s0 s1 s2) mockConfig) = 3 \<and>
      length (rows (cluster_config (Some (P_Or (P_Atom (TypeEq ''pd'')) (P_Atom (AddressEq s0))))
           (servers s0 s1 s2) mockConfig)) = 5)"
  by (simp add: cluster_config_def select_def servers_def mockConfig_def flatten_test_payload
      row_matches_def config_rows_def s0_def s1_def s2_def)

section \<open>The merged cluster log is in time order\<close>









text \<open>The model returns the rows of \<^verbatim>\<open>TestTiDBClusterLog\<close> in the order the test expects.\<close>

lemma cluster_log_of_the_test:
  "map (\<lambda>(mb, x). (item_time x, role mb)) (cluster_log test_logs (\<lambda>x. True)) = fullLogs"
  by (simp add: cluster_log_def merge_def sequence_of_def test_logs_def fullLogs_def line_def
      log_member_def kmerge.simps)


lemma unordered_output:
  "map (\<lambda>(mb, x). item_time x) (cluster_log unordered_logs (\<lambda>x. True)) = [2, 3, 1, 4, 5]"
  by (simp add: cluster_log_def merge_def sequence_of_def unordered_logs_def line_def
      log_member_def kmerge.simps)




end
